theory Spec2Isabelle
  imports Main
begin

section \<open>Constants of main.go\<close>

definition baseURL :: string where
  "baseURL = ''https://realtor.ca''"

definition dynamoPartitionKeyValue :: string where
  "dynamoPartitionKeyValue = ''seen-listings''"

section \<open>Data types of main.go\<close>

record Listing =
  ID :: string
  RelativeDetailsURL :: string

definition URL :: "Listing \<Rightarrow> string" where
  "URL l = baseURL @ RelativeDetailsURL l"

record Listings =
  Results :: "Listing list"

record ListingCache =
  PartitionKey :: string
  SeenIDs :: "string list"

text \<open>
  \<^verbatim>\<open>DB.cache\<close> is a pointer: \<open>None\<close> is the nil pointer of a store that was never
  loaded. The DynamoDB client handle carries no state of its own and is left out.
\<close>

record DB =
  cache :: "ListingCache option"

record Notifier =
  topicArn :: string

record PublishInput =
  Message :: string
  Subject :: string
  TopicArn :: string

datatype error =
  HttpError | ReadBodyError | JsonError
  | GetItemError | UnmarshalError
  | MarshalError | PutItemError
  | PublishError
  | CacheNotPopulated

text \<open>
  What a Go call does: it returns a value, returns an error, or panics (here only
  by dereferencing a nil \<^verbatim>\<open>db.cache\<close>).
\<close>

datatype 'a ret = Value 'a | Error error | Panic

section \<open>The outside world\<close>

text \<open>
  The state that outlives a run: the items of the DynamoDB table by partition key,
  and every call of \<^verbatim>\<open>SendListingAlert\<close> with what SNS answered, oldest first.
\<close>

record world =
  table :: "string \<rightharpoonup> ListingCache"
  sns_log :: "(Listing \<times> error option) list"

text \<open>
  What the outside does during one run: the four required environment variables
  (three of them are used by the code below), the result of the HTTP search, and
  which of the AWS calls fail. \<open>unmarshal_fault = Some p\<close> says that decoding the
  stored item fails and leaves \<^verbatim>\<open>db.cache\<close> equal to \<open>p\<close>. SNS decides on
  the calls it has seen so far and on the message.
\<close>

record env =
  awsRegion :: string
  awsAccountId :: string
  snsTopicName :: string
  fetch_result :: "error + Listings"
  get_item_fails :: bool
  unmarshal_fault :: "ListingCache option option"
  marshal_fails :: bool
  put_item_fails :: bool
  publish_fails :: "(Listing \<times> error option) list \<Rightarrow> PublishInput \<Rightarrow> bool"

section \<open>The seen-set store\<close>

definition NewDB :: DB where
  "NewDB = \<lparr>cache = None\<rparr>"

definition GetItem :: "env \<Rightarrow> world \<Rightarrow> error + ListingCache option" where
  "GetItem e w =
     (if get_item_fails e then Inl GetItemError
      else Inr (table w dynamoPartitionKeyValue))"

text \<open>
  Modelled from the spec: \<^verbatim>\<open>dynamodbattribute.UnmarshalMap\<close> belongs to the AWS SDK
  and is not part of the sources. The spec says that a record that is absent gives
  the empty working set and is no error, and that malformed data makes the load
  fail. A stored item is decoded to itself. With no item the target pointer is
  allocated when it is nil and no field is written.
\<close>

definition UnmarshalMap ::
  "env \<Rightarrow> ListingCache option \<Rightarrow> ListingCache option \<Rightarrow> error option \<times> ListingCache option"
where
  "UnmarshalMap e item ptr =
     (case unmarshal_fault e of
        Some p \<Rightarrow> (Some UnmarshalError, p)
      | None \<Rightarrow>
          (case item of
             Some c \<Rightarrow> (None, Some c)
           | None \<Rightarrow>
               (case ptr of
                  None \<Rightarrow> (None, Some \<lparr>PartitionKey = [], SeenIDs = []\<rparr>)
                | Some c \<Rightarrow> (None, Some c))))"

definition refreshCache :: "env \<Rightarrow> DB \<Rightarrow> world \<Rightarrow> error option \<times> DB" where
  "refreshCache e db w =
     (case GetItem e w of
        Inl err \<Rightarrow> (Some err, db)
      | Inr item \<Rightarrow>
          (case UnmarshalMap e item (cache db) of
             (Some err, p) \<Rightarrow> (Some err, db\<lparr>cache := p\<rparr>)
           | (None, p) \<Rightarrow> (None, db\<lparr>cache := p\<rparr>)))"

text \<open>The \<^verbatim>\<open>for ... range db.cache.SeenIDs\<close> loop of \<^verbatim>\<open>Seen\<close>.\<close>

fun seen_loop :: "string list \<Rightarrow> string \<Rightarrow> bool" where
  "seen_loop [] i = False"
| "seen_loop (seenId # rest) i = (if i = seenId then True else seen_loop rest i)"

definition Seen :: "env \<Rightarrow> DB \<Rightarrow> world \<Rightarrow> Listing \<Rightarrow> bool ret \<times> DB" where
  "Seen e db w listing =
     (case (if cache db = None then refreshCache e db w else (None, db)) of
        (Some err, db1) \<Rightarrow> (Error err, db1)
      | (None, db1) \<Rightarrow>
          (case cache db1 of
             None \<Rightarrow> (Panic, db1)
           | Some c \<Rightarrow> (Value (seen_loop (SeenIDs c) (ID listing)), db1)))"

definition MarkSeen :: "DB \<Rightarrow> Listing \<Rightarrow> error option \<times> DB" where
  "MarkSeen db listing =
     (case cache db of
        None \<Rightarrow> (Some CacheNotPopulated, db)
      | Some c \<Rightarrow> (None, db\<lparr>cache := Some (c\<lparr>SeenIDs := SeenIDs c @ [ID listing]\<rparr>)\<rparr>))"

definition Flush :: "env \<Rightarrow> DB \<Rightarrow> world \<Rightarrow> unit ret \<times> DB \<times> world" where
  "Flush e db w =
     (case cache db of
        None \<Rightarrow> (Panic, db, w)
      | Some c \<Rightarrow>
          (let c1 = c\<lparr>PartitionKey := dynamoPartitionKeyValue\<rparr>;
               db1 = db\<lparr>cache := Some c1\<rparr>
           in if marshal_fails e then (Error MarshalError, db1, w)
              else if put_item_fails e then (Error PutItemError, db1, w)
              else (Value (), db1, w\<lparr>table := (table w)(PartitionKey c1 \<mapsto> c1)\<rparr>)))"

section \<open>The notifier\<close>

definition NewNotifier :: "env \<Rightarrow> Notifier" where
  "NewNotifier e =
     \<lparr>topicArn = ''arn:aws:sns:'' @ awsRegion e @ '':'' @ awsAccountId e @ '':'' @ snsTopicName e\<rparr>"

definition formatMessage :: "Notifier \<Rightarrow> Listing \<Rightarrow> string" where
  "formatMessage n listing = URL listing"

definition formatSubject :: "Notifier \<Rightarrow> Listing \<Rightarrow> string" where
  "formatSubject n listing = ''New listing on Realtor.ca''"

text \<open>The \<^verbatim>\<open>sns.PublishInput\<close> literal of \<^verbatim>\<open>SendListingAlert\<close>.\<close>

definition publishInput :: "Notifier \<Rightarrow> Listing \<Rightarrow> PublishInput" where
  "publishInput n listing =
     \<lparr>Message = formatMessage n listing,
      Subject = formatSubject n listing,
      TopicArn = topicArn n\<rparr>"

definition SendListingAlert :: "env \<Rightarrow> Notifier \<Rightarrow> Listing \<Rightarrow> world \<Rightarrow> error option \<times> world" where
  "SendListingAlert e n listing w =
     (let err = (if publish_fails e (sns_log w) (publishInput n listing)
                 then Some PublishError else None)
      in (err, w\<lparr>sns_log := sns_log w @ [(listing, err)]\<rparr>))"

section \<open>The run\<close>

definition fetchListings :: "env \<Rightarrow> error + Listings" where
  "fetchListings e = fetch_result e"

text \<open>
  The \<^verbatim>\<open>for ... range listings.Results\<close> loop of \<^verbatim>\<open>HandleRequest\<close>. It ends
  with \<open>Value ()\<close> when it falls through, with \<open>Error err\<close> at a \<^verbatim>\<open>return err\<close>.
  The error that \<^verbatim>\<open>MarkSeen\<close> returns is dropped, as \<^verbatim>\<open>_ = db.MarkSeen(...)\<close> does.
\<close>

fun loop :: "env \<Rightarrow> Notifier \<Rightarrow> Listing list \<Rightarrow> DB \<Rightarrow> world \<Rightarrow> unit ret \<times> DB \<times> world" where
  "loop e notify [] db w = (Value (), db, w)"
| "loop e notify (listing # rest) db w =
     (case Seen e db w listing of
        (Panic, db1) \<Rightarrow> (Panic, db1, w)
      | (Error err, db1) \<Rightarrow> (Error err, db1, w)
      | (Value seen, db1) \<Rightarrow>
          (if \<not> seen then
             (case SendListingAlert e notify listing w of
                (Some err, w1) \<Rightarrow> (Error err, db1, w1)
              | (None, w1) \<Rightarrow> loop e notify rest (snd (MarkSeen db1 listing)) w1)
           else loop e notify rest db1 w))"

text \<open>
  How an invocation ends: \<^verbatim>\<open>HandleRequest\<close> returns (nil or an error), a panic
  leaves it, or \<^verbatim>\<open>log.Fatal\<close> ends the process.
\<close>

datatype outcome = Returned "error option" | Panicked | Exited error

text \<open>
  The deferred function runs \<^verbatim>\<open>Flush\<close> at every exit after the \<^verbatim>\<open>defer\<close>
  statement, also while a panic unwinds. \<^verbatim>\<open>HandleRequest\<close> has no named result, so
  the assignment to \<^verbatim>\<open>err\<close> in the deferred function does not change what
  is returned.
\<close>

definition HandleRequest :: "env \<Rightarrow> world \<Rightarrow> outcome \<times> world" where
  "HandleRequest e w =
     (case fetchListings e of
        Inl err \<Rightarrow> (Returned (Some err), w)
      | Inr listings \<Rightarrow>
          (case loop e (NewNotifier e) (Results listings) NewDB w of
             (r, db1, w1) \<Rightarrow>
               (case Flush e db1 w1 of
                  (Panic, db2, w2) \<Rightarrow> (Panicked, w2)
                | (Error err, db2, w2) \<Rightarrow> (Exited err, w2)
                | (Value u, db2, w2) \<Rightarrow>
                    (case r of
                       Panic \<Rightarrow> (Panicked, w2)
                     | Error err \<Rightarrow> (Returned (Some err), w2)
                     | Value u' \<Rightarrow> (Returned None, w2)))))"

section \<open>Vocabulary for the properties\<close>

text \<open>The identifiers of the durable record under the fixed partition key.\<close>

definition stored_ids :: "world \<Rightarrow> string list" where
  "stored_ids w =
     (case table w dynamoPartitionKeyValue of None \<Rightarrow> [] | Some c \<Rightarrow> SeenIDs c)"

text \<open>The working copy that a load without fault builds from the durable record.\<close>

definition loaded :: "world \<Rightarrow> ListingCache" where
  "loaded w =
     (case table w dynamoPartitionKeyValue of
        None \<Rightarrow> \<lparr>PartitionKey = [], SeenIDs = []\<rparr>
      | Some c \<Rightarrow> c)"

text \<open>The listings of those calls of \<^verbatim>\<open>SendListingAlert\<close> that SNS accepted.\<close>

definition delivered :: "(Listing \<times> error option) list \<Rightarrow> Listing list" where
  "delivered calls = map fst (filter (\<lambda>p. snd p = None) calls)"

text \<open>
  What the loop has done when it starts from a loaded working copy \<open>c\<close> and the
  listings \<open>ok\<close> are those whose alert was accepted: their identifiers were appended
  in order, the table is untouched, each is the first listing of the sequence with its
  identifier and was not in \<open>c\<close>, and the loop either fell through with every
  identifier of the sequence now in the working copy, or stopped at one rejected alert.
\<close>

definition loop_post ::
  "Listing list \<Rightarrow> ListingCache \<Rightarrow> DB \<Rightarrow> world \<Rightarrow> unit ret \<Rightarrow> DB \<Rightarrow> world \<Rightarrow> Listing list \<Rightarrow> bool"
where
  "loop_post ls c db w r db' w' ok \<longleftrightarrow>
     db' = db\<lparr>cache := Some (c\<lparr>SeenIDs := SeenIDs c @ map ID ok\<rparr>)\<rparr>
     \<and> table w' = table w
     \<and> distinct (map ID ok)
     \<and> (\<forall>m\<in>set ok. ID m \<notin> set (SeenIDs c) \<and> find (\<lambda>x. ID x = ID m) ls = Some m)
     \<and> ((r = Value () \<and> sns_log w' = sns_log w @ map (\<lambda>m. (m, None)) ok
           \<and> ID ` set ls \<subseteq> set (SeenIDs c) \<union> ID ` set ok)
        \<or> (\<exists>l. r = Error PublishError
              \<and> sns_log w' = sns_log w @ map (\<lambda>m. (m, None)) ok @ [(l, Some PublishError)]
              \<and> ID l \<notin> set (SeenIDs c) \<union> ID ` set ok
              \<and> find (\<lambda>x. ID x = ID l) ls = Some l))"

text \<open>
  The same for a whole invocation that returned \<open>r\<close> from the world \<open>w\<close>: the
  record written under the partition key holds the identifiers stored before,
  followed by those of the accepted alerts.
\<close>

definition run_post :: "Listing list \<Rightarrow> world \<Rightarrow> error option \<Rightarrow> world \<Rightarrow> Listing list \<Rightarrow> bool" where
  "run_post ls w r w' ok \<longleftrightarrow>
     table w' = (table w)(dynamoPartitionKeyValue \<mapsto>
        \<lparr>PartitionKey = dynamoPartitionKeyValue, SeenIDs = stored_ids w @ map ID ok\<rparr>)
     \<and> distinct (map ID ok)
     \<and> (\<forall>m\<in>set ok. ID m \<notin> set (stored_ids w) \<and> find (\<lambda>x. ID x = ID m) ls = Some m)
     \<and> ((r = None \<and> sns_log w' = sns_log w @ map (\<lambda>m. (m, None)) ok
           \<and> ID ` set ls \<subseteq> set (stored_ids w) \<union> ID ` set ok)
        \<or> (\<exists>l. r = Some PublishError
              \<and> sns_log w' = sns_log w @ map (\<lambda>m. (m, None)) ok @ [(l, Some PublishError)]
              \<and> ID l \<notin> set (stored_ids w) \<union> ID ` set ok
              \<and> find (\<lambda>x. ID x = ID l) ls = Some l))"

subsection \<open>Concrete inputs\<close>

definition listingA :: Listing where
  "listingA = \<lparr>ID = ''A'', RelativeDetailsURL = ''/real-estate/A''\<rparr>"

definition listingB :: Listing where
  "listingB = \<lparr>ID = ''B'', RelativeDetailsURL = ''/real-estate/B''\<rparr>"

definition listingC :: Listing where
  "listingC = \<lparr>ID = ''C'', RelativeDetailsURL = ''/real-estate/C''\<rparr>"

text \<open>An environment in which the search returns \<open>ls\<close> and no call fails.\<close>

definition calm :: "Listing list \<Rightarrow> env" where
  "calm ls =
     \<lparr>awsRegion = ''ca-central-1'', awsAccountId = ''123456789012'',
      snsTopicName = ''listings'',
      fetch_result = Inr \<lparr>Results = ls\<rparr>,
      get_item_fails = False, unmarshal_fault = None,
      marshal_fails = False, put_item_fails = False,
      publish_fails = (\<lambda>calls input. False)\<rparr>"

text \<open>The same, but SNS rejects the second alert it is asked to publish.\<close>

definition second_rejected :: "Listing list \<Rightarrow> env" where
  "second_rejected ls = (calm ls)\<lparr>publish_fails := (\<lambda>calls input. length calls = 1)\<rparr>"

text \<open>A world with no durable record and no alert so far.\<close>

definition fresh :: world where
  "fresh = \<lparr>table = Map.empty, sns_log = []\<rparr>"

text \<open>A world whose durable record holds the identifiers \<open>ids\<close>.\<close>

definition world_with :: "string list \<Rightarrow> world" where
  "world_with ids =
     \<lparr>table = [dynamoPartitionKeyValue \<mapsto>
         \<lparr>PartitionKey = dynamoPartitionKeyValue, SeenIDs = ids\<rparr>],
      sns_log = []\<rparr>"

section \<open>Facts about the store\<close>

lemma seen_loop_iff: "seen_loop xs i = (i \<in> set xs)"
  by (induction xs) auto

lemma Seen_loaded:
  "cache db = Some c \<Longrightarrow> Seen e db w l = (Value (ID l \<in> set (SeenIDs c)), db)"
  by (simp add: Seen_def seen_loop_iff)

lemma MarkSeen_loaded:
  "cache db = Some c \<Longrightarrow>
   MarkSeen db l = (None, db\<lparr>cache := Some (c\<lparr>SeenIDs := SeenIDs c @ [ID l]\<rparr>)\<rparr>)"
  by (simp add: MarkSeen_def)

lemma refreshCache_NewDB:
  "\<not> get_item_fails e \<Longrightarrow> unmarshal_fault e = None \<Longrightarrow>
   refreshCache e NewDB w = (None, \<lparr>cache = Some (loaded w)\<rparr>)"
  by (simp add: refreshCache_def GetItem_def UnmarshalMap_def NewDB_def loaded_def
      split: option.splits)

lemma Seen_value_loaded:
  "Seen e db w l = (Value s, db1) \<Longrightarrow> \<exists>c. cache db1 = Some c"
  by (auto simp: Seen_def split: if_splits option.splits prod.splits)

section \<open>Facts about the loop\<close>

lemma loop_loaded_seen:
  "cache db = Some c \<Longrightarrow> ID l \<in> set (SeenIDs c) \<Longrightarrow>
   loop e n (l # rest) db w = loop e n rest db w"
  by (simp add: Seen_loaded)

lemma loop_loaded_fail:
  "cache db = Some c \<Longrightarrow> ID l \<notin> set (SeenIDs c) \<Longrightarrow>
   publish_fails e (sns_log w) (publishInput n l) \<Longrightarrow>
   loop e n (l # rest) db w =
     (Error PublishError, db, w\<lparr>sns_log := sns_log w @ [(l, Some PublishError)]\<rparr>)"
  by (simp add: Seen_loaded SendListingAlert_def Let_def)

lemma loop_loaded_ok:
  "cache db = Some c \<Longrightarrow> ID l \<notin> set (SeenIDs c) \<Longrightarrow>
   \<not> publish_fails e (sns_log w) (publishInput n l) \<Longrightarrow>
   loop e n (l # rest) db w =
     loop e n rest (db\<lparr>cache := Some (c\<lparr>SeenIDs := SeenIDs c @ [ID l]\<rparr>)\<rparr>)
       (w\<lparr>sns_log := sns_log w @ [(l, None)]\<rparr>)"
  by (simp add: Seen_loaded SendListingAlert_def MarkSeen_loaded Let_def)

lemma loop_loaded:
  "cache db = Some c \<Longrightarrow> loop e n ls db w = (r, db', w') \<Longrightarrow>
   \<exists>ok. loop_post ls c db w r db' w' ok"
proof (induction ls arbitrary: db w c)
  case Nil
  then show ?case by (auto simp: loop_post_def)
next
  case (Cons l rest)
  show ?case
  proof (cases "ID l \<in> set (SeenIDs c)")
    case True
    have "loop e n rest db w = (r, db', w')"
      using Cons.prems(2) unfolding loop_loaded_seen [OF Cons.prems(1) True] .
    from Cons.IH [OF Cons.prems(1) this] obtain ok where "loop_post rest c db w r db' w' ok"
      by blast
    with True have "loop_post (l # rest) c db w r db' w' ok"
      unfolding loop_post_def by auto
    then show ?thesis by blast
  next
    case False
    show ?thesis
    proof (cases "publish_fails e (sns_log w) (publishInput n l)")
      case True
      have "(r, db', w') =
          (Error PublishError, db, w\<lparr>sns_log := sns_log w @ [(l, Some PublishError)]\<rparr>)"
        using Cons.prems(2) unfolding loop_loaded_fail [OF Cons.prems(1) False True] by simp
      with False Cons.prems(1) have "loop_post (l # rest) c db w r db' w' []"
        unfolding loop_post_def by auto
      then show ?thesis by blast
    next
      case sent: False
      let ?c1 = "c\<lparr>SeenIDs := SeenIDs c @ [ID l]\<rparr>"
      let ?db1 = "db\<lparr>cache := Some ?c1\<rparr>"
      let ?w1 = "w\<lparr>sns_log := sns_log w @ [(l, None)]\<rparr>"
      have run: "loop e n rest ?db1 ?w1 = (r, db', w')"
        using Cons.prems(2) unfolding loop_loaded_ok [OF Cons.prems(1) False sent] .
      have "cache ?db1 = Some ?c1" by simp
      from Cons.IH [OF this run] obtain ok where post: "loop_post rest ?c1 ?db1 ?w1 r db' w' ok"
        by blast
      from post have fresh_ids: "\<forall>m\<in>set ok. ID m \<noteq> ID l"
        unfolding loop_post_def by auto
      from post have "db' = db\<lparr>cache := Some (c\<lparr>SeenIDs := SeenIDs c @ map ID (l # ok)\<rparr>)\<rparr>"
        and "table w' = table w"
        unfolding loop_post_def by auto
      moreover from post fresh_ids have "distinct (map ID (l # ok))"
        unfolding loop_post_def by auto
      moreover from post fresh_ids False
      have "\<forall>m\<in>set (l # ok). ID m \<notin> set (SeenIDs c)
              \<and> find (\<lambda>x. ID x = ID m) (l # rest) = Some m"
        unfolding loop_post_def by auto
      moreover from post consider
        (completed) "r = Value ()" "sns_log w' = sns_log ?w1 @ map (\<lambda>m. (m, None)) ok"
          "ID ` set rest \<subseteq> set (SeenIDs ?c1) \<union> ID ` set ok"
        | (failed) l' where "r = Error PublishError"
          "sns_log w' = sns_log ?w1 @ map (\<lambda>m. (m, None)) ok @ [(l', Some PublishError)]"
          "ID l' \<notin> set (SeenIDs ?c1) \<union> ID ` set ok"
          "find (\<lambda>x. ID x = ID l') rest = Some l'"
        unfolding loop_post_def by blast
      then have "(r = Value () \<and> sns_log w' = sns_log w @ map (\<lambda>m. (m, None)) (l # ok)
           \<and> ID ` set (l # rest) \<subseteq> set (SeenIDs c) \<union> ID ` set (l # ok))
        \<or> (\<exists>l'. r = Error PublishError
              \<and> sns_log w' = sns_log w @ map (\<lambda>m. (m, None)) (l # ok) @ [(l', Some PublishError)]
              \<and> ID l' \<notin> set (SeenIDs c) \<union> ID ` set (l # ok)
              \<and> find (\<lambda>x. ID x = ID l') (l # rest) = Some l')"
      proof cases
        case completed
        then show ?thesis by auto
      next
        case failed
        then have "r = Error PublishError
              \<and> sns_log w' = sns_log w @ map (\<lambda>m. (m, None)) (l # ok) @ [(l', Some PublishError)]
              \<and> ID l' \<notin> set (SeenIDs c) \<union> ID ` set (l # ok)
              \<and> find (\<lambda>x. ID x = ID l') (l # rest) = Some l'"
          by auto
        then show ?thesis by blast
      qed
      ultimately have "loop_post (l # rest) c db w r db' w' (l # ok)"
        unfolding loop_post_def by blast
      then show ?thesis by blast
    qed
  qed
qed

section \<open>Facts about an invocation\<close>

lemma SeenIDs_loaded: "SeenIDs (loaded w) = stored_ids w"
  by (simp add: loaded_def stored_ids_def split: option.splits)

lemma Seen_NewDB_get_fails:
  "get_item_fails e \<Longrightarrow> Seen e NewDB w l = (Error GetItemError, NewDB)"
  by (simp add: Seen_def refreshCache_def GetItem_def NewDB_def)

lemma Seen_NewDB_unmarshal_fails:
  "\<not> get_item_fails e \<Longrightarrow> unmarshal_fault e = Some p \<Longrightarrow>
   Seen e NewDB w l = (Error UnmarshalError, \<lparr>cache = p\<rparr>)"
  by (simp add: Seen_def refreshCache_def GetItem_def UnmarshalMap_def NewDB_def)

lemma loop_first_load:
  "\<not> get_item_fails e \<Longrightarrow> unmarshal_fault e = None \<Longrightarrow>
   loop e n (l # rest) NewDB w = loop e n (l # rest) \<lparr>cache = Some (loaded w)\<rparr> w"
  by (simp add: Seen_def refreshCache_NewDB) (simp add: NewDB_def)

lemma Flush_nil: "cache db = None \<Longrightarrow> Flush e db w = (Panic, db, w)"
  by (simp add: Flush_def)

lemma Flush_loaded:
  "cache db = Some c \<Longrightarrow>
   Flush e db w =
     (if marshal_fails e
      then (Error MarshalError, db\<lparr>cache := Some (c\<lparr>PartitionKey := dynamoPartitionKeyValue\<rparr>)\<rparr>, w)
      else if put_item_fails e
      then (Error PutItemError, db\<lparr>cache := Some (c\<lparr>PartitionKey := dynamoPartitionKeyValue\<rparr>)\<rparr>, w)
      else (Value (), db\<lparr>cache := Some (c\<lparr>PartitionKey := dynamoPartitionKeyValue\<rparr>)\<rparr>,
            w\<lparr>table := (table w)(dynamoPartitionKeyValue \<mapsto> c\<lparr>PartitionKey := dynamoPartitionKeyValue\<rparr>)\<rparr>))"
  by (simp add: Flush_def Let_def)

lemma Flush_sns_log: "Flush e db w = (r, db', w') \<Longrightarrow> sns_log w' = sns_log w"
  by (auto simp: Flush_def Let_def split: option.splits if_splits)

lemma HandleRequest_empty:
  "fetch_result e = Inr L \<Longrightarrow> Results L = [] \<Longrightarrow> HandleRequest e w = (Panicked, w)"
  by (simp add: HandleRequest_def fetchListings_def NewDB_def Flush_def)

lemma HandleRequest_get_fails:
  "fetch_result e = Inr L \<Longrightarrow> Results L = l # rest \<Longrightarrow> get_item_fails e \<Longrightarrow>
   HandleRequest e w = (Panicked, w)"
  by (simp add: HandleRequest_def fetchListings_def Seen_NewDB_get_fails)
     (simp add: Flush_def NewDB_def)

lemma HandleRequest_unmarshal_fails:
  "fetch_result e = Inr L \<Longrightarrow> Results L = l # rest \<Longrightarrow> \<not> get_item_fails e \<Longrightarrow>
   unmarshal_fault e = Some p \<Longrightarrow>
   HandleRequest e w =
     (case Flush e \<lparr>cache = p\<rparr> w of
        (Panic, db2, w2) \<Rightarrow> (Panicked, w2)
      | (Error err, db2, w2) \<Rightarrow> (Exited err, w2)
      | (Value u, db2, w2) \<Rightarrow> (Returned (Some UnmarshalError), w2))"
  by (simp add: HandleRequest_def fetchListings_def Seen_NewDB_unmarshal_fails
      split: prod.splits ret.splits)

lemma HandleRequest_load_ok:
  assumes "fetch_result e = Inr L" and "Results L = l # rest"
    and "\<not> get_item_fails e" and "unmarshal_fault e = None"
  shows "HandleRequest e w =
     (case loop e (NewNotifier e) (Results L) \<lparr>cache = Some (loaded w)\<rparr> w of
        (r, db1, w1) \<Rightarrow>
          (case Flush e db1 w1 of
             (Panic, db2, w2) \<Rightarrow> (Panicked, w2)
           | (Error err, db2, w2) \<Rightarrow> (Exited err, w2)
           | (Value u, db2, w2) \<Rightarrow>
               (case r of
                  Panic \<Rightarrow> (Panicked, w2)
                | Error err \<Rightarrow> (Returned (Some err), w2)
                | Value u' \<Rightarrow> (Returned None, w2))))"
proof -
  have "loop e (NewNotifier e) (Results L) NewDB w =
      loop e (NewNotifier e) (Results L) \<lparr>cache = Some (loaded w)\<rparr> w"
    unfolding assms(2) using assms(3,4) by (rule loop_first_load)
  then show ?thesis
    unfolding HandleRequest_def fetchListings_def assms(1) by (simp only: sum.case)
qed

lemma loop_all_seen:
  "cache db = Some c \<Longrightarrow> ID ` set ls \<subseteq> set (SeenIDs c) \<Longrightarrow>
   loop e n ls db w = (Value (), db, w)"
  by (induction ls) (simp_all add: Seen_loaded)

lemma HandleRequest_returned:
  assumes fetch: "fetch_result e = Inr L"
    and run: "HandleRequest e w = (Returned r, w')"
    and r: "r \<noteq> Some UnmarshalError \<or> unmarshal_fault e = None"
  shows "(\<exists>ok. run_post (Results L) w r w' ok)
     \<and> Results L \<noteq> [] \<and> \<not> get_item_fails e \<and> unmarshal_fault e = None
     \<and> \<not> marshal_fails e \<and> \<not> put_item_fails e"
proof (cases "Results L")
  case Nil
  with fetch run show ?thesis by (simp add: HandleRequest_empty)
next
  case (Cons l rest)
  have get: "\<not> get_item_fails e"
    using HandleRequest_get_fails [OF fetch Cons, of w] run by auto
  have unm: "unmarshal_fault e = None"
  proof (cases "unmarshal_fault e")
    case None
    then show ?thesis .
  next
    case (Some p)
    with r have "r \<noteq> Some UnmarshalError" by simp
    with HandleRequest_unmarshal_fails [OF fetch Cons get Some, of w] run show ?thesis
      by (auto split: prod.splits ret.splits)
  qed
  let ?db0 = "\<lparr>cache = Some (loaded w)\<rparr>"
  obtain r0 db1 w1 where lp: "loop e (NewNotifier e) (Results L) ?db0 w = (r0, db1, w1)"
    by (metis prod_cases3)
  have "cache ?db0 = Some (loaded w)" by simp
  from loop_loaded [OF this lp] obtain ok where
    post: "loop_post (Results L) (loaded w) ?db0 w r0 db1 w1 ok" by blast
  let ?c1 = "(loaded w)\<lparr>SeenIDs := SeenIDs (loaded w) @ map ID ok\<rparr>"
  from post have db1: "cache db1 = Some ?c1" and tab: "table w1 = table w"
    unfolding loop_post_def by simp_all
  have hr: "HandleRequest e w =
     (case Flush e db1 w1 of
        (Panic, db2, w2) \<Rightarrow> (Panicked, w2)
      | (Error err, db2, w2) \<Rightarrow> (Exited err, w2)
      | (Value u, db2, w2) \<Rightarrow>
          (case r0 of
             Panic \<Rightarrow> (Panicked, w2)
           | Error err \<Rightarrow> (Returned (Some err), w2)
           | Value u' \<Rightarrow> (Returned None, w2)))"
    unfolding HandleRequest_load_ok [OF fetch Cons get unm] lp by simp
  have mar: "\<not> marshal_fails e" and put: "\<not> put_item_fails e"
    using hr run unfolding Flush_loaded [OF db1] by (auto split: if_splits)
  have w': "w' = w1\<lparr>table := (table w1)(dynamoPartitionKeyValue \<mapsto> ?c1\<lparr>PartitionKey := dynamoPartitionKeyValue\<rparr>)\<rparr>"
    and out: "Returned r = (case r0 of Panic \<Rightarrow> Panicked | Error err \<Rightarrow> Returned (Some err) | Value u' \<Rightarrow> Returned None)"
    using hr run mar put unfolding Flush_loaded [OF db1] by (auto split: ret.splits)
  have "run_post (Results L) w r w' ok"
    using post out unfolding run_post_def loop_post_def w'
    by (auto simp: SeenIDs_loaded tab split: ret.splits)
  with Cons get unm mar put show ?thesis by auto
qed

lemma delivered_accepted: "delivered (map (\<lambda>m. (m, None)) ok) = ok"
  by (induction ok) (simp_all add: delivered_def)

lemma delivered_rejected: "delivered (map (\<lambda>m. (m, None)) ok @ [(l, Some err)]) = ok"
  by (induction ok) (simp_all add: delivered_def)

lemma loop_post_calls:
  assumes "loop_post ls c db w r db' w' ok"
  shows "\<exists>new. sns_log w' = sns_log w @ new \<and> delivered new = ok
     \<and> distinct (map (\<lambda>p. ID (fst p)) new)
     \<and> (\<forall>p\<in>set new. ID (fst p) \<notin> set (SeenIDs c)
           \<and> find (\<lambda>x. ID x = ID (fst p)) ls = Some (fst p))"
proof -
  from assms consider
    (completed) "sns_log w' = sns_log w @ map (\<lambda>m. (m, None)) ok"
    | (failed) l where "sns_log w' = sns_log w @ map (\<lambda>m. (m, None)) ok @ [(l, Some PublishError)]"
        "ID l \<notin> set (SeenIDs c) \<union> ID ` set ok" "find (\<lambda>x. ID x = ID l) ls = Some l"
    unfolding loop_post_def by blast
  then show ?thesis
  proof cases
    case completed
    let ?new = "map (\<lambda>m. (m, None)) ok :: (Listing \<times> error option) list"
    have "map (\<lambda>p. ID (fst p)) ?new = map ID ok" by simp
    with assms completed have "sns_log w' = sns_log w @ ?new \<and> delivered ?new = ok
       \<and> distinct (map (\<lambda>p. ID (fst p)) ?new)
       \<and> (\<forall>p\<in>set ?new. ID (fst p) \<notin> set (SeenIDs c)
           \<and> find (\<lambda>x. ID x = ID (fst p)) ls = Some (fst p))"
      unfolding loop_post_def by (auto simp: delivered_accepted comp_def)
    then show ?thesis by blast
  next
    case failed
    let ?new = "map (\<lambda>m. (m, None)) ok @ [(l, Some PublishError)]"
    have "map (\<lambda>p. ID (fst p)) ?new = map ID ok @ [ID l]" by simp
    with assms failed have "sns_log w' = sns_log w @ ?new \<and> delivered ?new = ok
       \<and> distinct (map (\<lambda>p. ID (fst p)) ?new)
       \<and> (\<forall>p\<in>set ?new. ID (fst p) \<notin> set (SeenIDs c)
           \<and> find (\<lambda>x. ID x = ID (fst p)) ls = Some (fst p))"
      unfolding loop_post_def by (auto simp: delivered_rejected comp_def)
    then show ?thesis by blast
  qed
qed

lemma HandleRequest_calls:
  assumes fetch: "fetch_result e = Inr L"
    and run: "HandleRequest e w = (out, w')"
  shows "\<exists>new. sns_log w' = sns_log w @ new
     \<and> distinct (map (\<lambda>p. ID (fst p)) new)
     \<and> (\<forall>p\<in>set new. ID (fst p) \<notin> set (stored_ids w)
           \<and> find (\<lambda>x. ID x = ID (fst p)) (Results L) = Some (fst p))"
proof -
  have quiet: ?thesis if "sns_log w' = sns_log w"
    using that by (intro exI [of _ "[]"]) simp
  show ?thesis
  proof (cases "Results L")
    case Nil
    with fetch run show ?thesis by (intro quiet) (simp add: HandleRequest_empty)
  next
    case (Cons l rest)
    show ?thesis
    proof (cases "get_item_fails e")
      case True
      with fetch Cons run show ?thesis by (intro quiet) (simp add: HandleRequest_get_fails)
    next
      case get: False
      show ?thesis
      proof (cases "unmarshal_fault e")
        case (Some p)
        from run show ?thesis
          unfolding HandleRequest_unmarshal_fails [OF fetch Cons get Some]
          by (intro quiet) (auto split: prod.splits ret.splits dest: Flush_sns_log)
      next
        case None
        let ?db0 = "\<lparr>cache = Some (loaded w)\<rparr>"
        obtain r0 db1 w1 where lp: "loop e (NewNotifier e) (Results L) ?db0 w = (r0, db1, w1)"
          by (metis prod_cases3)
        have "cache ?db0 = Some (loaded w)" by simp
        from loop_loaded [OF this lp] obtain ok where
          "loop_post (Results L) (loaded w) ?db0 w r0 db1 w1 ok" by blast
        from loop_post_calls [OF this] obtain new where
          new: "sns_log w1 = sns_log w @ new" "distinct (map (\<lambda>p. ID (fst p)) new)"
            "\<forall>p\<in>set new. ID (fst p) \<notin> set (SeenIDs (loaded w))
               \<and> find (\<lambda>x. ID x = ID (fst p)) (Results L) = Some (fst p)"
          by blast
        from run have "sns_log w' = sns_log w1"
          unfolding HandleRequest_load_ok [OF fetch Cons get None] lp
          by (auto split: prod.splits ret.splits dest: Flush_sns_log)
        with new show ?thesis by (auto simp: SeenIDs_loaded)
      qed
    qed
  qed
qed

lemma run_post_stored_ids:
  "run_post ls w r w' ok \<Longrightarrow> stored_ids w' = stored_ids w @ map ID ok"
  by (simp add: run_post_def stored_ids_def)

lemma run_post_calls:
  assumes "run_post ls w r w' ok"
  shows "\<exists>new. sns_log w' = sns_log w @ new \<and> delivered new = ok"
proof -
  from assms consider
    "sns_log w' = sns_log w @ map (\<lambda>m. (m, None)) ok"
    | l where "sns_log w' = sns_log w @ map (\<lambda>m. (m, None)) ok @ [(l, Some PublishError)]"
    unfolding run_post_def by blast
  then show ?thesis
    by cases (use delivered_accepted delivered_rejected in blast)+
qed

lemma cache_NewDB: "cache NewDB = None"
  by (simp add: NewDB_def)

lemma Seen_NewDB_ok:
  "\<not> get_item_fails e \<Longrightarrow> unmarshal_fault e = None \<Longrightarrow>
   Seen e NewDB w l = (Value (ID l \<in> set (stored_ids w)), \<lparr>cache = Some (loaded w)\<rparr>)"
  by (simp add: Seen_def cache_NewDB refreshCache_NewDB seen_loop_iff SeenIDs_loaded)

lemma find_Some_set: "find P xs = Some x \<Longrightarrow> x \<in> set xs"
  by (induction xs) (auto split: if_splits)

lemma loop_loaded_Value_unseen:
  assumes "cache db = Some c" and "ID l \<notin> set (SeenIDs c)"
    and "loop e n (l # rest) db w = (Value (), db', w')"
  shows "\<not> publish_fails e (sns_log w) (publishInput n l)
     \<and> loop e n rest (db\<lparr>cache := Some (c\<lparr>SeenIDs := SeenIDs c @ [ID l]\<rparr>)\<rparr>)
          (w\<lparr>sns_log := sns_log w @ [(l, None)]\<rparr>) = (Value (), db', w')"
proof (cases "publish_fails e (sns_log w) (publishInput n l)")
  case True
  from assms(3) show ?thesis
    unfolding loop_loaded_fail [OF assms(1,2) True] by simp
next
  case False
  from assms(3) False show ?thesis
    unfolding loop_loaded_ok [OF assms(1,2) False] by simp
qed

lemma HandleRequest_success_loop:
  assumes fetch: "fetch_result e = Inr L"
    and run: "HandleRequest e w = (Returned None, w')"
  shows "\<exists>db1 w1 c1.
      loop e (NewNotifier e) (Results L) \<lparr>cache = Some (loaded w)\<rparr> w = (Value (), db1, w1)
      \<and> cache db1 = Some c1
      \<and> w' = w1\<lparr>table := (table w1)(dynamoPartitionKeyValue \<mapsto>
                 c1\<lparr>PartitionKey := dynamoPartitionKeyValue\<rparr>)\<rparr>"
proof -
  from HandleRequest_returned [OF fetch run] have
    ne: "Results L \<noteq> []" and get: "\<not> get_item_fails e" and unm: "unmarshal_fault e = None"
    and mar: "\<not> marshal_fails e" and put: "\<not> put_item_fails e"
    by simp_all
  from ne obtain l rest where Cons: "Results L = l # rest" by (cases "Results L") auto
  let ?db0 = "\<lparr>cache = Some (loaded w)\<rparr>"
  obtain r0 db1 w1 where lp: "loop e (NewNotifier e) (Results L) ?db0 w = (r0, db1, w1)"
    by (metis prod_cases3)
  have "cache ?db0 = Some (loaded w)" by simp
  from loop_loaded [OF this lp] obtain ok where
    "loop_post (Results L) (loaded w) ?db0 w r0 db1 w1 ok" by blast
  then obtain c1 where c1: "cache db1 = Some c1"
    unfolding loop_post_def by simp
  from run have "r0 = Value () \<and> w' = w1\<lparr>table := (table w1)(dynamoPartitionKeyValue \<mapsto>
                 c1\<lparr>PartitionKey := dynamoPartitionKeyValue\<rparr>)\<rparr>"
    unfolding HandleRequest_load_ok [OF fetch Cons get unm] lp
    by (auto simp: Flush_loaded [OF c1] mar put split: ret.splits)
  with lp c1 show ?thesis by blast
qed

lemma rerun_all_seen:
  assumes fetch: "fetch_result e = Inr L"
    and seen: "ID ` set (Results L) \<subseteq> set (stored_ids w)"
    and rec: "table w dynamoPartitionKeyValue = Some c"
    and key: "PartitionKey c = dynamoPartitionKeyValue"
  shows "sns_log (snd (HandleRequest e w)) = sns_log w
     \<and> (unmarshal_fault e = None \<longrightarrow> snd (HandleRequest e w) = w)
     \<and> (Results L \<noteq> [] \<and> \<not> get_item_fails e \<and> unmarshal_fault e = None
          \<and> \<not> marshal_fails e \<and> \<not> put_item_fails e \<longrightarrow>
          HandleRequest e w = (Returned None, w))"
proof (cases "Results L")
  case Nil
  with fetch show ?thesis by (simp add: HandleRequest_empty)
next
  case (Cons l rest)
  show ?thesis
  proof (cases "get_item_fails e")
    case True
    with fetch Cons show ?thesis by (simp add: HandleRequest_get_fails)
  next
    case get: False
    show ?thesis
    proof (cases "unmarshal_fault e")
      case (Some p)
      obtain rf db2 w2 where f: "Flush e \<lparr>cache = p\<rparr> w = (rf, db2, w2)"
        by (metis prod_cases3)
      from Flush_sns_log [OF f] have "sns_log w2 = sns_log w" .
      then show ?thesis
        unfolding HandleRequest_unmarshal_fails [OF fetch Cons get Some] f
        using Some by (cases rf) simp_all
    next
      case None
      let ?db0 = "\<lparr>cache = Some (loaded w)\<rparr>"
      have ld: "loaded w = c" using rec by (simp add: loaded_def)
      have "cache ?db0 = Some (loaded w)" by simp
      moreover have "ID ` set (Results L) \<subseteq> set (SeenIDs (loaded w))"
        using seen by (simp add: SeenIDs_loaded)
      ultimately have lp: "loop e (NewNotifier e) (Results L) ?db0 w = (Value (), ?db0, w)"
        by (rule loop_all_seen)
      have same: "w\<lparr>table := (table w)(dynamoPartitionKeyValue \<mapsto> c\<lparr>PartitionKey := dynamoPartitionKeyValue\<rparr>)\<rparr> = w"
      proof -
        have "c\<lparr>PartitionKey := dynamoPartitionKeyValue\<rparr> = c" using key by simp
        moreover have "(table w)(dynamoPartitionKeyValue \<mapsto> c) = table w"
          using rec by (simp add: fun_upd_idem)
        ultimately show ?thesis by simp
      qed
      have fl: "Flush e ?db0 w =
          (if marshal_fails e then (Error MarshalError, ?db0\<lparr>cache := Some (c\<lparr>PartitionKey := dynamoPartitionKeyValue\<rparr>)\<rparr>, w)
           else if put_item_fails e then (Error PutItemError, ?db0\<lparr>cache := Some (c\<lparr>PartitionKey := dynamoPartitionKeyValue\<rparr>)\<rparr>, w)
           else (Value (), ?db0\<lparr>cache := Some (c\<lparr>PartitionKey := dynamoPartitionKeyValue\<rparr>)\<rparr>, w))"
        using Flush_loaded [of ?db0 c e w] ld same by simp
      show ?thesis
        unfolding HandleRequest_load_ok [OF fetch Cons get None] lp
        by (simp add: fl)
    qed
  qed
qed

section \<open>Three concrete invocations\<close>

lemmas run_defs =
  HandleRequest_def fetchListings_def NewDB_def NewNotifier_def Seen_def refreshCache_def
  GetItem_def UnmarshalMap_def MarkSeen_def Flush_def SendListingAlert_def Let_def
  calm_def second_rejected_def fresh_def world_with_def listingA_def listingB_def listingC_def

lemma run_ABC_after_A:
  "HandleRequest (calm [listingA, listingB, listingC]) (world_with [''A'']) =
     (Returned None,
      \<lparr>table = [dynamoPartitionKeyValue \<mapsto>
          \<lparr>PartitionKey = dynamoPartitionKeyValue, SeenIDs = [''A'', ''B'', ''C'']\<rparr>],
       sns_log = [(listingB, None), (listingC, None)]\<rparr>)"
  by (simp add: run_defs)

lemma run_ABA_fresh:
  "HandleRequest (calm [listingA, listingB, listingA]) fresh =
     (Returned None,
      \<lparr>table = [dynamoPartitionKeyValue \<mapsto>
          \<lparr>PartitionKey = dynamoPartitionKeyValue, SeenIDs = [''A'', ''B'']\<rparr>],
       sns_log = [(listingA, None), (listingB, None)]\<rparr>)"
  by (simp add: run_defs)

lemma run_ABC_second_rejected:
  "HandleRequest (second_rejected [listingA, listingB, listingC]) fresh =
     (Returned (Some PublishError),
      \<lparr>table = [dynamoPartitionKeyValue \<mapsto>
          \<lparr>PartitionKey = dynamoPartitionKeyValue, SeenIDs = [''A'']\<rparr>],
       sns_log = [(listingA, None), (listingB, Some PublishError)]\<rparr>)"
  by (simp add: run_defs)

section \<open>Claims\<close>

text \<open>
  C9. In the loop of \<^verbatim>\<open>HandleRequest\<close> the error that \<^verbatim>\<open>MarkSeen\<close> returns, and
  that the loop drops, cannot occur. The loop reaches \<^verbatim>\<open>MarkSeen\<close> on one path
  only: \<^verbatim>\<open>Seen\<close> returned \<open>false\<close> without error and the alert was sent. On that
  path the loop goes on with the store that \<^verbatim>\<open>MarkSeen\<close> gives back from the one
  \<^verbatim>\<open>Seen\<close> left, that store has a working copy (the pointer is not nil), and
  \<^verbatim>\<open>MarkSeen\<close> returns no error.
\<close>

theorem MarkSeen_error_unreachable:
  "Seen e db w listing = (Value False, db1) \<Longrightarrow>
   SendListingAlert e notify listing w = (None, w1) \<Longrightarrow>
     loop e notify (listing # rest) db w = loop e notify rest (snd (MarkSeen db1 listing)) w1
     \<and> cache db1 \<noteq> None
     \<and> fst (MarkSeen db1 listing) = None"
proof -
  assume s: "Seen e db w listing = (Value False, db1)"
    and n: "SendListingAlert e notify listing w = (None, w1)"
  from s obtain c where c: "cache db1 = Some c"
    using Seen_value_loaded by blast
  have "loop e notify (listing # rest) db w = loop e notify rest (snd (MarkSeen db1 listing)) w1"
    using s n by simp
  moreover have "fst (MarkSeen db1 listing) = None"
    using c by (simp add: MarkSeen_loaded)
  ultimately show ?thesis using c by simp
qed

theorem MarkSeen_error_unreachable_witness:
  "Seen (calm [listingA]) NewDB fresh listingA = (Value False, \<lparr>cache = Some \<lparr>PartitionKey = [], SeenIDs = []\<rparr>\<rparr>)
   \<and> SendListingAlert (calm [listingA]) (NewNotifier (calm [listingA])) listingA fresh
       = (None, \<lparr>table = Map.empty, sns_log = [(listingA, None)]\<rparr>)
   \<and> fst (MarkSeen \<lparr>cache = Some \<lparr>PartitionKey = [], SeenIDs = []\<rparr>\<rparr> listingA) = None"
proof -
  have s: "Seen (calm [listingA]) NewDB fresh listingA = (Value False, \<lparr>cache = Some \<lparr>PartitionKey = [], SeenIDs = []\<rparr>\<rparr>)"
    by (simp add: Seen_def refreshCache_def GetItem_def UnmarshalMap_def NewDB_def calm_def fresh_def)
  have n: "SendListingAlert (calm [listingA]) (NewNotifier (calm [listingA])) listingA fresh
       = (None, \<lparr>table = Map.empty, sns_log = [(listingA, None)]\<rparr>)"
    by (simp add: SendListingAlert_def calm_def fresh_def Let_def)
  show ?thesis
    using MarkSeen_error_unreachable [OF s n] s n by simp
qed

text \<open>
  C8, as stated, fails. \<^verbatim>\<open>MarkSeen\<close> appends without looking: marking \<open>A\<close> in a
  working copy that holds \<open>A\<close> gives the sequence \<open>A, A\<close>, which is not the
  working copy before, and \<^verbatim>\<open>Flush\<close> then writes \<open>A, A\<close>.
\<close>

theorem MarkSeen_duplicate_counterexample:
  "snd (MarkSeen \<lparr>cache = Some \<lparr>PartitionKey = dynamoPartitionKeyValue, SeenIDs = [''A'']\<rparr>\<rparr> listingA)
     = \<lparr>cache = Some \<lparr>PartitionKey = dynamoPartitionKeyValue, SeenIDs = [''A'', ''A'']\<rparr>\<rparr>
   \<and> snd (MarkSeen \<lparr>cache = Some \<lparr>PartitionKey = dynamoPartitionKeyValue, SeenIDs = [''A'']\<rparr>\<rparr> listingA)
     \<noteq> \<lparr>cache = Some \<lparr>PartitionKey = dynamoPartitionKeyValue, SeenIDs = [''A'']\<rparr>\<rparr>
   \<and> stored_ids (snd (snd (Flush (calm []) 
        (snd (MarkSeen \<lparr>cache = Some \<lparr>PartitionKey = dynamoPartitionKeyValue, SeenIDs = [''A'']\<rparr>\<rparr> listingA))
        (world_with [''A'']))))
     = [''A'', ''A'']"
  by (simp add: MarkSeen_def listingA_def Flush_def calm_def world_with_def stored_ids_def Let_def)

text \<open>
  C8, amended. The seen identifiers are a sequence without uniqueness. Marking an
  identifier that the working copy already holds returns no error and appends one
  more occurrence of it; the set of identifiers that the working copy denotes is
  the same, and so is the answer of every later \<^verbatim>\<open>Seen\<close>.
\<close>

theorem MarkSeen_duplicate_appends:
  "cache db = Some c \<Longrightarrow> ID listing \<in> set (SeenIDs c) \<Longrightarrow>
     (\<exists>c'. MarkSeen db listing = (None, db\<lparr>cache := Some c'\<rparr>)
        \<and> SeenIDs c' = SeenIDs c @ [ID listing]
        \<and> PartitionKey c' = PartitionKey c
        \<and> set (SeenIDs c') = set (SeenIDs c))
     \<and> Seen e (snd (MarkSeen db listing)) w other = (fst (Seen e db w other), snd (MarkSeen db listing))"
  by (auto simp: MarkSeen_loaded Seen_loaded)

theorem MarkSeen_duplicate_appends_witness:
  "cache \<lparr>cache = Some \<lparr>PartitionKey = dynamoPartitionKeyValue, SeenIDs = [''A'']\<rparr>\<rparr>
     = Some \<lparr>PartitionKey = dynamoPartitionKeyValue, SeenIDs = [''A'']\<rparr>
   \<and> ID listingA \<in> set [''A'']
   \<and> MarkSeen \<lparr>cache = Some \<lparr>PartitionKey = dynamoPartitionKeyValue, SeenIDs = [''A'']\<rparr>\<rparr> listingA
     = (None, \<lparr>cache = Some \<lparr>PartitionKey = dynamoPartitionKeyValue, SeenIDs = [''A'', ''A'']\<rparr>\<rparr>)
   \<and> fst (Seen (calm []) (snd (MarkSeen \<lparr>cache = Some \<lparr>PartitionKey = dynamoPartitionKeyValue, SeenIDs = [''A'']\<rparr>\<rparr> listingA)) fresh listingB)
     = fst (Seen (calm []) \<lparr>cache = Some \<lparr>PartitionKey = dynamoPartitionKeyValue, SeenIDs = [''A'']\<rparr>\<rparr> fresh listingB)"
  using MarkSeen_duplicate_appends [of "\<lparr>cache = Some \<lparr>PartitionKey = dynamoPartitionKeyValue, SeenIDs = [''A'']\<rparr>\<rparr>"
      "\<lparr>PartitionKey = dynamoPartitionKeyValue, SeenIDs = [''A'']\<rparr>" listingA "calm []" fresh listingB]
  by (simp add: listingA_def MarkSeen_def)

text \<open>
  C6 does not hold for the code. When the search returns no listing, the loop ends at
  once without any call of \<^verbatim>\<open>Seen\<close>, so nothing was loaded and \<^verbatim>\<open>db.cache\<close> is nil. The
  deferred \<^verbatim>\<open>Flush\<close> then assigns to \<^verbatim>\<open>db.cache.PartitionKey\<close> and panics,
  whatever the durable storage would have answered.
\<close>

theorem empty_fetch_panics_in_Flush:
  "fetch_result e = Inr listings \<Longrightarrow> Results listings = [] \<Longrightarrow>
   loop e (NewNotifier e) (Results listings) NewDB w = (Value (), NewDB, w)
   \<and> Flush e NewDB w = (Panic, NewDB, w)
   \<and> HandleRequest e w = (Panicked, w)"
  by (simp add: HandleRequest_def fetchListings_def NewDB_def Flush_def)

theorem empty_fetch_panics_in_Flush_witness:
  "fetch_result (calm []) = Inr \<lparr>Results = []\<rparr> \<and> Results \<lparr>Results = []\<rparr> = []
   \<and> HandleRequest (calm []) fresh = (Panicked, fresh)"
  using empty_fetch_panics_in_Flush [of "calm []" "\<lparr>Results = []\<rparr>" fresh]
  by (simp add: calm_def)

text \<open>
  C2 does not hold for the code. When the durable read of the first \<^verbatim>\<open>Seen\<close> fails, the
  loop returns that error, but the deferred \<^verbatim>\<open>Flush\<close> still runs; \<^verbatim>\<open>db.cache\<close> is nil and
  \<^verbatim>\<open>Flush\<close> panics. The invocation ends in a panic, not in the returned
  error. The world is left as it was.
\<close>

theorem failed_load_panics_in_Flush:
  "fetch_result e = Inr listings \<Longrightarrow> Results listings = listing # rest \<Longrightarrow>
   get_item_fails e \<Longrightarrow>
   loop e (NewNotifier e) (Results listings) NewDB w = (Error GetItemError, NewDB, w)
   \<and> Flush e NewDB w = (Panic, NewDB, w)
   \<and> HandleRequest e w = (Panicked, w)"
  by (simp add: HandleRequest_def fetchListings_def NewDB_def Flush_def Seen_def
      refreshCache_def GetItem_def)

theorem failed_load_panics_in_Flush_witness:
  "fetch_result ((calm [listingA])\<lparr>get_item_fails := True\<rparr>) = Inr \<lparr>Results = [listingA]\<rparr>
   \<and> Results \<lparr>Results = [listingA]\<rparr> = [listingA]
   \<and> get_item_fails ((calm [listingA])\<lparr>get_item_fails := True\<rparr>)
   \<and> HandleRequest ((calm [listingA])\<lparr>get_item_fails := True\<rparr>) (world_with [''A''])
       = (Panicked, world_with [''A''])"
  using failed_load_panics_in_Flush [of "(calm [listingA])\<lparr>get_item_fails := True\<rparr>"
      "\<lparr>Results = [listingA]\<rparr>" listingA "[]" "world_with [''A'']"]
  by (simp add: calm_def)

text \<open>
  C3. The durable record holds exactly the identifier of \<open>a\<close>, the search returns
  \<open>a, b, c\<close> with three different identifiers, and the invocation returns nil. Then
  it made exactly two calls of \<^verbatim>\<open>SendListingAlert\<close>, for \<open>b\<close> and then for \<open>c\<close>, both
  accepted, and none for \<open>a\<close>; the record written holds the identifiers of \<open>a\<close>,
  \<open>b\<close> and \<open>c\<close>.
\<close>

theorem prior_A_fetch_A_B_C:
  assumes fetch: "fetch_result e = Inr L" and ls: "Results L = [a, b, c]"
    and ids: "distinct [ID a, ID b, ID c]"
    and prior: "set (stored_ids w) = {ID a}"
    and run: "HandleRequest e w = (Returned None, w')"
  shows "sns_log w' = sns_log w @ [(b, None), (c, None)]
     \<and> stored_ids w' = stored_ids w @ [ID b, ID c]
     \<and> set (stored_ids w') = {ID a, ID b, ID c}"
proof -
  let ?n = "NewNotifier e"
  let ?c0 = "loaded w"
  let ?db0 = "\<lparr>cache = Some ?c0\<rparr>"
  from HandleRequest_success_loop [OF fetch run] obtain db1 w1 c1 where
    lp: "loop e ?n [a, b, c] ?db0 w = (Value (), db1, w1)"
    and c1: "cache db1 = Some c1"
    and w': "w' = w1\<lparr>table := (table w1)(dynamoPartitionKeyValue \<mapsto>
                 c1\<lparr>PartitionKey := dynamoPartitionKeyValue\<rparr>)\<rparr>"
    unfolding ls by blast
  have db0: "cache ?db0 = Some ?c0" by simp
  have a_seen: "ID a \<in> set (SeenIDs ?c0)" using prior by (simp add: SeenIDs_loaded)
  from ids have ne: "ID b \<noteq> ID a" "ID c \<noteq> ID a" "ID c \<noteq> ID b" by auto
  have b_new: "ID b \<notin> set (SeenIDs ?c0)" using prior ne by (simp add: SeenIDs_loaded)
  have at_b: "loop e ?n [b, c] ?db0 w = (Value (), db1, w1)"
    using lp unfolding loop_loaded_seen [OF db0 a_seen] .
  let ?cb = "?c0\<lparr>SeenIDs := SeenIDs ?c0 @ [ID b]\<rparr>"
  let ?dbb = "?db0\<lparr>cache := Some ?cb\<rparr>"
  let ?wb = "w\<lparr>sns_log := sns_log w @ [(b, None)]\<rparr>"
  from loop_loaded_Value_unseen [OF db0 b_new at_b]
  have at_c: "loop e ?n [c] ?dbb ?wb = (Value (), db1, w1)" by simp
  have dbb: "cache ?dbb = Some ?cb" by simp
  have c_new: "ID c \<notin> set (SeenIDs ?cb)" using prior ne by (simp add: SeenIDs_loaded)
  from loop_loaded_Value_unseen [OF dbb c_new at_c]
  have "db1 = ?dbb\<lparr>cache := Some (?cb\<lparr>SeenIDs := SeenIDs ?cb @ [ID c]\<rparr>)\<rparr>"
    and w1: "w1 = ?wb\<lparr>sns_log := sns_log ?wb @ [(c, None)]\<rparr>"
    by simp_all
  with c1 have c1_ids: "SeenIDs c1 = stored_ids w @ [ID b, ID c]"
    by (auto simp: SeenIDs_loaded)
  have "sns_log w' = sns_log w @ [(b, None), (c, None)]"
    unfolding w' w1 by simp
  moreover have "stored_ids w' = stored_ids w @ [ID b, ID c]"
    unfolding w' using c1_ids by (simp add: stored_ids_def)
  ultimately show ?thesis using prior by auto
qed

theorem prior_A_fetch_A_B_C_witness:
  "fetch_result (calm [listingA, listingB, listingC]) = Inr \<lparr>Results = [listingA, listingB, listingC]\<rparr>
   \<and> distinct [ID listingA, ID listingB, ID listingC]
   \<and> set (stored_ids (world_with [''A''])) = {ID listingA}
   \<and> HandleRequest (calm [listingA, listingB, listingC]) (world_with [''A'']) =
       (Returned None,
        \<lparr>table = [dynamoPartitionKeyValue \<mapsto>
            \<lparr>PartitionKey = dynamoPartitionKeyValue, SeenIDs = [''A'', ''B'', ''C'']\<rparr>],
         sns_log = [(listingB, None), (listingC, None)]\<rparr>)
   \<and> set (stored_ids
        \<lparr>table = [dynamoPartitionKeyValue \<mapsto>
            \<lparr>PartitionKey = dynamoPartitionKeyValue, SeenIDs = [''A'', ''B'', ''C'']\<rparr>],
         sns_log = [(listingB, None), (listingC, None)]\<rparr>) = {ID listingA, ID listingB, ID listingC}"
proof -
  have fetch: "fetch_result (calm [listingA, listingB, listingC]) = Inr \<lparr>Results = [listingA, listingB, listingC]\<rparr>"
    by (simp add: calm_def)
  have ls: "Results \<lparr>Results = [listingA, listingB, listingC]\<rparr> = [listingA, listingB, listingC]"
    by simp
  have ids: "distinct [ID listingA, ID listingB, ID listingC]"
    by (simp add: listingA_def listingB_def listingC_def)
  have prior: "set (stored_ids (world_with [''A''])) = {ID listingA}"
    by (simp add: stored_ids_def world_with_def listingA_def)
  from prior_A_fetch_A_B_C [OF fetch ls ids prior run_ABC_after_A] fetch ids prior run_ABC_after_A
  show ?thesis by auto
qed

text \<open>
  C4. Start from an empty seen set (no record, or a record without identifiers) and let
  an invocation over the listings of \<open>L\<close> return nil. Then every call it made was
  accepted, the listings alerted have pairwise different identifiers, and their
  identifiers are exactly those of \<open>L\<close>: one alert for each identifier. A second
  invocation in the same environment, from the world the first one left, returns nil
  and leaves that world as it is. In any environment whose search returns \<open>L\<close>
  again the second invocation makes no call of \<^verbatim>\<open>SendListingAlert\<close>, and it leaves the
  world as it is when decoding the record does not fail.
\<close>

theorem second_run_sends_nothing:
  assumes fetch: "fetch_result e = Inr L" and prior: "stored_ids w = []"
    and run: "HandleRequest e w = (Returned None, w1)"
    and fetch2: "fetch_result e2 = Inr L"
  shows "(\<exists>ok. sns_log w1 = sns_log w @ map (\<lambda>m. (m, None)) ok
          \<and> distinct (map ID ok) \<and> set ok \<subseteq> set (Results L)
          \<and> ID ` set ok = ID ` set (Results L)
          \<and> stored_ids w1 = map ID ok)
     \<and> HandleRequest e w1 = (Returned None, w1)
     \<and> sns_log (snd (HandleRequest e2 w1)) = sns_log w1
     \<and> (unmarshal_fault e2 = None \<longrightarrow> snd (HandleRequest e2 w1) = w1)"
proof -
  from HandleRequest_returned [OF fetch run] obtain ok where
    post: "run_post (Results L) w None w1 ok"
    and calm: "Results L \<noteq> []" "\<not> get_item_fails e" "unmarshal_fault e = None"
      "\<not> marshal_fails e" "\<not> put_item_fails e"
    by auto
  from post have log: "sns_log w1 = sns_log w @ map (\<lambda>m. (m, None)) ok"
    and dist: "distinct (map ID ok)"
    and first: "\<forall>m\<in>set ok. find (\<lambda>x. ID x = ID m) (Results L) = Some m"
    and cover: "ID ` set (Results L) \<subseteq> ID ` set ok"
    and tab: "table w1 dynamoPartitionKeyValue =
        Some \<lparr>PartitionKey = dynamoPartitionKeyValue, SeenIDs = map ID ok\<rparr>"
    unfolding run_post_def using prior by auto
  from first have sub: "set ok \<subseteq> set (Results L)"
    by (auto dest: find_Some_set)
  with cover have same: "ID ` set ok = ID ` set (Results L)" by auto
  from tab have ids1: "stored_ids w1 = map ID ok" by (simp add: stored_ids_def)
  have seen: "ID ` set (Results L) \<subseteq> set (stored_ids w1)"
    using same ids1 by simp
  have key: "PartitionKey \<lparr>PartitionKey = dynamoPartitionKeyValue, SeenIDs = map ID ok\<rparr>
      = dynamoPartitionKeyValue" by simp
  from rerun_all_seen [OF fetch seen tab key] calm
  have again: "HandleRequest e w1 = (Returned None, w1)" by simp
  from rerun_all_seen [OF fetch2 seen tab key]
  have "sns_log (snd (HandleRequest e2 w1)) = sns_log w1"
    and "unmarshal_fault e2 = None \<longrightarrow> snd (HandleRequest e2 w1) = w1"
    by simp_all
  with log dist sub same ids1 again show ?thesis by blast
qed

theorem second_run_sends_nothing_witness:
  "fetch_result (calm [listingA, listingB, listingA]) = Inr \<lparr>Results = [listingA, listingB, listingA]\<rparr>
   \<and> stored_ids fresh = []
   \<and> HandleRequest (calm [listingA, listingB, listingA]) fresh =
       (Returned None,
        \<lparr>table = [dynamoPartitionKeyValue \<mapsto>
            \<lparr>PartitionKey = dynamoPartitionKeyValue, SeenIDs = [''A'', ''B'']\<rparr>],
         sns_log = [(listingA, None), (listingB, None)]\<rparr>)
   \<and> HandleRequest (calm [listingA, listingB, listingA])
        \<lparr>table = [dynamoPartitionKeyValue \<mapsto>
            \<lparr>PartitionKey = dynamoPartitionKeyValue, SeenIDs = [''A'', ''B'']\<rparr>],
         sns_log = [(listingA, None), (listingB, None)]\<rparr> =
       (Returned None,
        \<lparr>table = [dynamoPartitionKeyValue \<mapsto>
            \<lparr>PartitionKey = dynamoPartitionKeyValue, SeenIDs = [''A'', ''B'']\<rparr>],
         sns_log = [(listingA, None), (listingB, None)]\<rparr>)"
proof -
  have fetch: "fetch_result (calm [listingA, listingB, listingA]) = Inr \<lparr>Results = [listingA, listingB, listingA]\<rparr>"
    by (simp add: calm_def)
  have prior: "stored_ids fresh = []"
    by (simp add: stored_ids_def fresh_def)
  from second_run_sends_nothing [OF fetch prior run_ABA_fresh fetch] fetch prior run_ABA_fresh
  show ?thesis by simp
qed

text \<open>
  C1, as stated, fails. Three listings \<open>A\<close>, \<open>B\<close>, \<open>C\<close>, none seen before, and SNS
  rejects the second alert: the invocation returns the error, and the record it has
  written holds \<open>A\<close> only. The loop returns at the rejected alert, before
  \<^verbatim>\<open>MarkSeen\<close>, so \<open>B\<close> is not marked.
\<close>

theorem rejected_alert_is_not_marked_counterexample:
  "HandleRequest (second_rejected [listingA, listingB, listingC]) fresh =
     (Returned (Some PublishError),
      \<lparr>table = [dynamoPartitionKeyValue \<mapsto>
          \<lparr>PartitionKey = dynamoPartitionKeyValue, SeenIDs = [''A'']\<rparr>],
       sns_log = [(listingA, None), (listingB, Some PublishError)]\<rparr>)
   \<and> stored_ids (snd (HandleRequest (second_rejected [listingA, listingB, listingC]) fresh)) = [''A'']
   \<and> ID listingB \<notin> set (stored_ids (snd (HandleRequest (second_rejected [listingA, listingB, listingC]) fresh)))"
  unfolding run_ABC_second_rejected by (simp add: stored_ids_def listingB_def)

text \<open>
  C1, amended. Whenever an invocation returns the error of a rejected alert, its calls
  of \<^verbatim>\<open>SendListingAlert\<close> are some accepted ones followed by the rejected one, which is
  the last; the record written holds the identifiers stored before followed by
  those of the accepted alerts, and not the identifier of the rejected listing. For
  three listings with different identifiers, none stored before, where the first
  alert is accepted and the second is rejected, and the durable reads and writes do
  not fail: the invocation returns the error, the third listing is never reached, and
  the record written holds the first identifier in addition and neither the second
  nor the third.
\<close>

theorem rejected_alert_is_not_marked:
  "(fetch_result e = Inr L \<and> HandleRequest e w = (Returned (Some PublishError), w') \<longrightarrow>
      (\<exists>ok l. sns_log w' = sns_log w @ map (\<lambda>m. (m, None)) ok @ [(l, Some PublishError)]
         \<and> stored_ids w' = stored_ids w @ map ID ok
         \<and> ID l \<notin> set (stored_ids w')))
   \<and> (fetch_result e = Inr L \<and> Results L = [l1, l2, l3]
       \<and> \<not> get_item_fails e \<and> unmarshal_fault e = None
       \<and> \<not> marshal_fails e \<and> \<not> put_item_fails e
       \<and> ID l1 \<noteq> ID l2 \<and> ID l1 \<noteq> ID l3 \<and> ID l2 \<noteq> ID l3
       \<and> ID l1 \<notin> set (stored_ids w) \<and> ID l2 \<notin> set (stored_ids w)
       \<and> ID l3 \<notin> set (stored_ids w)
       \<and> \<not> publish_fails e (sns_log w) (publishInput (NewNotifier e) l1)
       \<and> publish_fails e (sns_log w @ [(l1, None)]) (publishInput (NewNotifier e) l2) \<longrightarrow>
      (\<exists>w2. HandleRequest e w = (Returned (Some PublishError), w2)
         \<and> sns_log w2 = sns_log w @ [(l1, None), (l2, Some PublishError)]
         \<and> stored_ids w2 = stored_ids w @ [ID l1]
         \<and> ID l2 \<notin> set (stored_ids w2) \<and> ID l3 \<notin> set (stored_ids w2)))"
proof (intro conjI impI)
  assume "fetch_result e = Inr L \<and> HandleRequest e w = (Returned (Some PublishError), w')"
  then have fetch: "fetch_result e = Inr L"
    and run: "HandleRequest e w = (Returned (Some PublishError), w')" by simp_all
  from HandleRequest_returned [OF fetch run] obtain ok where
    post: "run_post (Results L) w (Some PublishError) w' ok" by auto
  then obtain l where log: "sns_log w' = sns_log w @ map (\<lambda>m. (m, None)) ok @ [(l, Some PublishError)]"
    and new: "ID l \<notin> set (stored_ids w) \<union> ID ` set ok"
    unfolding run_post_def by blast
  have ids: "stored_ids w' = stored_ids w @ map ID ok"
    using post by (rule run_post_stored_ids)
  from new have "ID l \<notin> set (stored_ids w')" unfolding ids by simp
  with log ids show "\<exists>ok l. sns_log w' = sns_log w @ map (\<lambda>m. (m, None)) ok @ [(l, Some PublishError)]
         \<and> stored_ids w' = stored_ids w @ map ID ok
         \<and> ID l \<notin> set (stored_ids w')"
    by blast
next
  assume a: "fetch_result e = Inr L \<and> Results L = [l1, l2, l3]
       \<and> \<not> get_item_fails e \<and> unmarshal_fault e = None
       \<and> \<not> marshal_fails e \<and> \<not> put_item_fails e
       \<and> ID l1 \<noteq> ID l2 \<and> ID l1 \<noteq> ID l3 \<and> ID l2 \<noteq> ID l3
       \<and> ID l1 \<notin> set (stored_ids w) \<and> ID l2 \<notin> set (stored_ids w)
       \<and> ID l3 \<notin> set (stored_ids w)
       \<and> \<not> publish_fails e (sns_log w) (publishInput (NewNotifier e) l1)
       \<and> publish_fails e (sns_log w @ [(l1, None)]) (publishInput (NewNotifier e) l2)"
  then have fetch: "fetch_result e = Inr L" and ls: "Results L = [l1, l2, l3]"
    and get: "\<not> get_item_fails e" and unm: "unmarshal_fault e = None"
    and mar: "\<not> marshal_fails e" and put: "\<not> put_item_fails e"
    and ne: "ID l1 \<noteq> ID l2" "ID l1 \<noteq> ID l3" "ID l2 \<noteq> ID l3"
    and unseen: "ID l1 \<notin> set (stored_ids w)" "ID l2 \<notin> set (stored_ids w)"
      "ID l3 \<notin> set (stored_ids w)"
    and ok1: "\<not> publish_fails e (sns_log w) (publishInput (NewNotifier e) l1)"
    and no2: "publish_fails e (sns_log w @ [(l1, None)]) (publishInput (NewNotifier e) l2)"
    by blast+
  let ?n = "NewNotifier e"
  let ?c0 = "loaded w"
  let ?db0 = "\<lparr>cache = Some ?c0\<rparr>"
  let ?c1 = "?c0\<lparr>SeenIDs := SeenIDs ?c0 @ [ID l1]\<rparr>"
  let ?db1 = "?db0\<lparr>cache := Some ?c1\<rparr>"
  let ?w1 = "w\<lparr>sns_log := sns_log w @ [(l1, None)]\<rparr>"
  let ?w1' = "?w1\<lparr>sns_log := sns_log ?w1 @ [(l2, Some PublishError)]\<rparr>"
  let ?w2 = "?w1'\<lparr>table := (table ?w1')(dynamoPartitionKeyValue \<mapsto>
                 ?c1\<lparr>PartitionKey := dynamoPartitionKeyValue\<rparr>)\<rparr>"
  have db0: "cache ?db0 = Some ?c0" and db1: "cache ?db1 = Some ?c1" by simp_all
  have new1: "ID l1 \<notin> set (SeenIDs ?c0)"
    using unseen(1) by (simp add: SeenIDs_loaded)
  have new2: "ID l2 \<notin> set (SeenIDs ?c1)"
    using unseen(2) ne(1) by (simp add: SeenIDs_loaded)
  have no2': "publish_fails e (sns_log ?w1) (publishInput ?n l2)" using no2 by simp
  have "loop e ?n [l1, l2, l3] ?db0 w = loop e ?n [l2, l3] ?db1 ?w1"
    by (rule loop_loaded_ok [OF db0 new1 ok1])
  also have "\<dots> = (Error PublishError, ?db1, ?w1')"
    by (rule loop_loaded_fail [OF db1 new2 no2'])
  finally have lp: "loop e ?n (Results L) ?db0 w = (Error PublishError, ?db1, ?w1')"
    unfolding ls .
  have fl: "Flush e ?db1 ?w1' =
      (Value (), ?db1\<lparr>cache := Some (?c1\<lparr>PartitionKey := dynamoPartitionKeyValue\<rparr>)\<rparr>, ?w2)"
    unfolding Flush_loaded [OF db1] using mar put by simp
  have hr: "HandleRequest e w = (Returned (Some PublishError), ?w2)"
    unfolding HandleRequest_load_ok [OF fetch ls get unm] lp using fl by simp
  have log2: "sns_log ?w2 = sns_log w @ [(l1, None), (l2, Some PublishError)]" by simp
  have ids2: "stored_ids ?w2 = stored_ids w @ [ID l1]"
    by (simp add: stored_ids_def SeenIDs_loaded)
  have "ID l2 \<notin> set (stored_ids ?w2)" and "ID l3 \<notin> set (stored_ids ?w2)"
    unfolding ids2 using unseen ne by simp_all
  with hr log2 ids2 show "\<exists>w2. HandleRequest e w = (Returned (Some PublishError), w2)
         \<and> sns_log w2 = sns_log w @ [(l1, None), (l2, Some PublishError)]
         \<and> stored_ids w2 = stored_ids w @ [ID l1]
         \<and> ID l2 \<notin> set (stored_ids w2) \<and> ID l3 \<notin> set (stored_ids w2)"
    by blast
qed

theorem rejected_alert_is_not_marked_witness:
  "fetch_result (second_rejected [listingA, listingB, listingC]) =
       Inr \<lparr>Results = [listingA, listingB, listingC]\<rparr>
   \<and> \<not> publish_fails (second_rejected [listingA, listingB, listingC]) (sns_log fresh)
         (publishInput (NewNotifier (second_rejected [listingA, listingB, listingC])) listingA)
   \<and> publish_fails (second_rejected [listingA, listingB, listingC]) (sns_log fresh @ [(listingA, None)])
         (publishInput (NewNotifier (second_rejected [listingA, listingB, listingC])) listingB)
   \<and> HandleRequest (second_rejected [listingA, listingB, listingC]) fresh =
       (Returned (Some PublishError),
        \<lparr>table = [dynamoPartitionKeyValue \<mapsto>
            \<lparr>PartitionKey = dynamoPartitionKeyValue, SeenIDs = [''A'']\<rparr>],
         sns_log = [(listingA, None), (listingB, Some PublishError)]\<rparr>)
   \<and> stored_ids
        \<lparr>table = [dynamoPartitionKeyValue \<mapsto>
            \<lparr>PartitionKey = dynamoPartitionKeyValue, SeenIDs = [''A'']\<rparr>],
         sns_log = [(listingA, None), (listingB, Some PublishError)]\<rparr> = stored_ids fresh @ [ID listingA]
   \<and> ID listingB \<notin> set (stored_ids
        \<lparr>table = [dynamoPartitionKeyValue \<mapsto>
            \<lparr>PartitionKey = dynamoPartitionKeyValue, SeenIDs = [''A'']\<rparr>],
         sns_log = [(listingA, None), (listingB, Some PublishError)]\<rparr>)
   \<and> ID listingC \<notin> set (stored_ids
        \<lparr>table = [dynamoPartitionKeyValue \<mapsto>
            \<lparr>PartitionKey = dynamoPartitionKeyValue, SeenIDs = [''A'']\<rparr>],
         sns_log = [(listingA, None), (listingB, Some PublishError)]\<rparr>)"
proof -
  have "stored_ids fresh = []"
    by (simp add: stored_ids_def fresh_def)
  then have direct: ?thesis
    unfolding run_ABC_second_rejected
    by (simp add: second_rejected_def calm_def fresh_def stored_ids_def
        listingA_def listingB_def listingC_def)
  from rejected_alert_is_not_marked
    [where e = "second_rejected [listingA, listingB, listingC]"
       and L = "\<lparr>Results = [listingA, listingB, listingC]\<rparr>" and w = fresh
       and w' = "\<lparr>table = [dynamoPartitionKeyValue \<mapsto>
            \<lparr>PartitionKey = dynamoPartitionKeyValue, SeenIDs = [''A'']\<rparr>],
         sns_log = [(listingA, None), (listingB, Some PublishError)]\<rparr>"
       and ?l1.0 = listingA and ?l2.0 = listingB and ?l3.0 = listingC]
    direct
  show ?thesis by - assumption
qed

text \<open>
  C5. In one invocation, however it ends, the listings passed to \<^verbatim>\<open>SendListingAlert\<close>
  have pairwise different identifiers, and each of them is the first listing of the
  fetched sequence with its identifier. Once a listing is marked, \<^verbatim>\<open>Seen\<close> answers
  \<open>true\<close> for every listing with the same identifier, which is why a later
  occurrence is skipped.
\<close>

theorem no_second_alert_in_one_run:
  "(fetch_result e = Inr L \<and> HandleRequest e w = (out, w') \<longrightarrow>
      (\<exists>new. sns_log w' = sns_log w @ new
         \<and> distinct (map (\<lambda>p. ID (fst p)) new)
         \<and> (\<forall>p\<in>set new. find (\<lambda>x. ID x = ID (fst p)) (Results L) = Some (fst p))))
   \<and> (cache db = Some c \<and> ID second = ID first \<longrightarrow>
        fst (Seen e (snd (MarkSeen db first)) w2 second) = Value True)"
proof (intro conjI impI)
  assume "fetch_result e = Inr L \<and> HandleRequest e w = (out, w')"
  then obtain new where "sns_log w' = sns_log w @ new"
    "distinct (map (\<lambda>p. ID (fst p)) new)"
    "\<forall>p\<in>set new. ID (fst p) \<notin> set (stored_ids w)
           \<and> find (\<lambda>x. ID x = ID (fst p)) (Results L) = Some (fst p)"
    using HandleRequest_calls [of e L w out w'] by blast
  then show "\<exists>new. sns_log w' = sns_log w @ new
         \<and> distinct (map (\<lambda>p. ID (fst p)) new)
         \<and> (\<forall>p\<in>set new. find (\<lambda>x. ID x = ID (fst p)) (Results L) = Some (fst p))"
    by blast
next
  assume "cache db = Some c \<and> ID second = ID first"
  then show "fst (Seen e (snd (MarkSeen db first)) w2 second) = Value True"
    by (simp add: MarkSeen_loaded Seen_loaded)
qed

theorem no_second_alert_in_one_run_witness:
  "fetch_result (calm [listingA, listingB, listingA]) =
       Inr \<lparr>Results = [listingA, listingB, listingA]\<rparr>
   \<and> HandleRequest (calm [listingA, listingB, listingA]) fresh =
       (Returned None,
        \<lparr>table = [dynamoPartitionKeyValue \<mapsto>
            \<lparr>PartitionKey = dynamoPartitionKeyValue, SeenIDs = [''A'', ''B'']\<rparr>],
         sns_log = [(listingA, None), (listingB, None)]\<rparr>)
   \<and> sns_log
        \<lparr>table = [dynamoPartitionKeyValue \<mapsto>
            \<lparr>PartitionKey = dynamoPartitionKeyValue, SeenIDs = [''A'', ''B'']\<rparr>],
         sns_log = [(listingA, None), (listingB, None)]\<rparr> = sns_log fresh @ [(listingA, None), (listingB, None)]
   \<and> distinct (map (\<lambda>p. ID (fst p)) [(listingA, None), (listingB, None :: error option)])
   \<and> fst (Seen (calm [listingA, listingB, listingA])
        (snd (MarkSeen \<lparr>cache = Some \<lparr>PartitionKey = [], SeenIDs = []\<rparr>\<rparr> listingA))
        fresh \<lparr>ID = ''A'', RelativeDetailsURL = ''/real-estate/A-again''\<rparr>) = Value True"
proof -
  have direct: ?thesis
    unfolding run_ABA_fresh
    by (simp add: calm_def fresh_def listingA_def listingB_def MarkSeen_def Seen_def)
  from no_second_alert_in_one_run
    [where e = "calm [listingA, listingB, listingA]"
       and L = "\<lparr>Results = [listingA, listingB, listingA]\<rparr>" and w = fresh
       and out = "Returned None"
       and w' = "\<lparr>table = [dynamoPartitionKeyValue \<mapsto>
            \<lparr>PartitionKey = dynamoPartitionKeyValue, SeenIDs = [''A'', ''B'']\<rparr>],
         sns_log = [(listingA, None), (listingB, None)]\<rparr>"
       and db = "\<lparr>cache = Some \<lparr>PartitionKey = [], SeenIDs = []\<rparr>\<rparr>"
       and c = "\<lparr>PartitionKey = [], SeenIDs = []\<rparr>"
       and first = listingA
       and second = "\<lparr>ID = ''A'', RelativeDetailsURL = ''/real-estate/A-again''\<rparr>"
       and ?w2.0 = fresh]
    direct
  show ?thesis by - assumption
qed

text \<open>
  C7. When the durable read does not fail, loading with no record under the partition
  key and loading a record whose identifier sequence is empty both succeed with an
  empty working set, and the first \<^verbatim>\<open>Seen\<close> as well as every later one answers
  \<open>false\<close>, whatever listing is asked for.
\<close>

theorem absent_record_loads_as_empty:
  assumes "\<not> get_item_fails e" and "unmarshal_fault e = None"
    and "table w1 dynamoPartitionKeyValue = None"
    and "table w2 dynamoPartitionKeyValue = Some c" and "SeenIDs c = []"
  shows "fst (refreshCache e NewDB w1) = None \<and> fst (refreshCache e NewDB w2) = None
     \<and> (\<exists>c1. cache (snd (refreshCache e NewDB w1)) = Some c1 \<and> SeenIDs c1 = [])
     \<and> (\<exists>c2. cache (snd (refreshCache e NewDB w2)) = Some c2 \<and> SeenIDs c2 = [])
     \<and> fst (Seen e NewDB w1 listing) = Value False
     \<and> fst (Seen e NewDB w2 listing) = Value False
     \<and> fst (Seen e (snd (Seen e NewDB w1 listing)) w1' other) = Value False
     \<and> fst (Seen e (snd (Seen e NewDB w2 listing)) w2' other) = Value False"
proof -
  have l1: "SeenIDs (loaded w1) = []" and l2: "SeenIDs (loaded w2) = []"
    using assms(3,4,5) by (simp_all add: loaded_def)
  then have i1: "stored_ids w1 = []" and i2: "stored_ids w2 = []"
    by (simp_all add: SeenIDs_loaded)
  have s1: "Seen e NewDB w1 listing = (Value False, \<lparr>cache = Some (loaded w1)\<rparr>)"
    and s2: "Seen e NewDB w2 listing = (Value False, \<lparr>cache = Some (loaded w2)\<rparr>)"
    using assms(1,2) i1 i2 by (simp_all add: Seen_NewDB_ok)
  show ?thesis
    using assms(1,2) l1 l2 by (simp add: refreshCache_NewDB s1 s2 Seen_loaded)
qed

theorem absent_record_loads_as_empty_witness:
  "\<not> get_item_fails (calm []) \<and> unmarshal_fault (calm []) = None
   \<and> table fresh dynamoPartitionKeyValue = None
   \<and> table (world_with []) dynamoPartitionKeyValue =
       Some \<lparr>PartitionKey = dynamoPartitionKeyValue, SeenIDs = []\<rparr>
   \<and> fst (Seen (calm []) NewDB fresh listingA) = Value False
   \<and> fst (Seen (calm []) NewDB (world_with []) listingA) = Value False
   \<and> fst (Seen (calm []) (snd (Seen (calm []) NewDB fresh listingA)) fresh listingB) = Value False
   \<and> fst (Seen (calm []) (snd (Seen (calm []) NewDB (world_with []) listingA)) (world_with []) listingB)
       = Value False"
proof -
  have h: "\<not> get_item_fails (calm [])" "unmarshal_fault (calm []) = None"
    "table fresh dynamoPartitionKeyValue = None"
    "table (world_with []) dynamoPartitionKeyValue =
       Some \<lparr>PartitionKey = dynamoPartitionKeyValue, SeenIDs = []\<rparr>"
    "SeenIDs \<lparr>PartitionKey = dynamoPartitionKeyValue, SeenIDs = []\<rparr> = []"
    by (simp_all add: calm_def fresh_def world_with_def)
  from absent_record_loads_as_empty [OF h, of listingA fresh listingB "world_with []"] h
  show ?thesis by simp
qed

text \<open>
  C10. Once the working copy is loaded, \<^verbatim>\<open>Seen\<close> leaves the store as it is and
  \<^verbatim>\<open>MarkSeen\<close> appends one identifier; the loop leaves a working copy that is the one
  it started from followed by the identifiers of the accepted alerts, so nothing is ever
  removed; a \<^verbatim>\<open>Flush\<close> that succeeds writes exactly the identifiers of the working copy.
  Hence, when the load did not fail and the invocation returns, the record written holds
  the identifiers stored before followed by the identifiers marked in this run.
\<close>

theorem working_set_only_grows:
  "(cache db = Some c \<longrightarrow>
      snd (Seen e db w listing) = db
      \<and> snd (MarkSeen db listing) = db\<lparr>cache := Some (c\<lparr>SeenIDs := SeenIDs c @ [ID listing]\<rparr>)\<rparr>)
   \<and> (cache db = Some c \<and> loop e n ls db w = (r, db1, w1) \<longrightarrow>
        (\<exists>new. sns_log w1 = sns_log w @ new
           \<and> cache db1 = Some (c\<lparr>SeenIDs := SeenIDs c @ map ID (delivered new)\<rparr>)))
   \<and> (cache db1 = Some c1 \<and> Flush e db1 w1 = (Value (), db2, w2) \<longrightarrow>
        stored_ids w2 = SeenIDs c1)
   \<and> (fetch_result e = Inr L \<and> unmarshal_fault e = None
        \<and> HandleRequest e w = (Returned r', w') \<longrightarrow>
        (\<exists>new. sns_log w' = sns_log w @ new
           \<and> stored_ids w' = stored_ids w @ map ID (delivered new)))"
proof (intro conjI impI)
  assume "cache db = Some c"
  then show "snd (Seen e db w listing) = db"
    and "snd (MarkSeen db listing) = db\<lparr>cache := Some (c\<lparr>SeenIDs := SeenIDs c @ [ID listing]\<rparr>)\<rparr>"
    by (simp_all add: Seen_loaded MarkSeen_loaded)
next
  assume "cache db = Some c \<and> loop e n ls db w = (r, db1, w1)"
  then obtain ok where post: "loop_post ls c db w r db1 w1 ok"
    using loop_loaded by blast
  from loop_post_calls [OF post] obtain new where
    "sns_log w1 = sns_log w @ new" "delivered new = ok" by blast
  moreover from post have "cache db1 = Some (c\<lparr>SeenIDs := SeenIDs c @ map ID ok\<rparr>)"
    unfolding loop_post_def by simp
  ultimately show "\<exists>new. sns_log w1 = sns_log w @ new
           \<and> cache db1 = Some (c\<lparr>SeenIDs := SeenIDs c @ map ID (delivered new)\<rparr>)"
    by blast
next
  assume "cache db1 = Some c1 \<and> Flush e db1 w1 = (Value (), db2, w2)"
  then show "stored_ids w2 = SeenIDs c1"
    by (auto simp: Flush_loaded stored_ids_def split: if_splits)
next
  assume a: "fetch_result e = Inr L \<and> unmarshal_fault e = None
        \<and> HandleRequest e w = (Returned r', w')"
  then have "\<exists>ok. run_post (Results L) w r' w' ok"
    using HandleRequest_returned [of e L w r' w'] by blast
  then obtain ok where post: "run_post (Results L) w r' w' ok" ..
  from run_post_calls [OF post] run_post_stored_ids [OF post]
  show "\<exists>new. sns_log w' = sns_log w @ new
           \<and> stored_ids w' = stored_ids w @ map ID (delivered new)"
    by blast
qed

theorem working_set_only_grows_witness:
  "fetch_result (calm [listingA, listingB, listingC]) =
       Inr \<lparr>Results = [listingA, listingB, listingC]\<rparr>
   \<and> unmarshal_fault (calm [listingA, listingB, listingC]) = None
   \<and> HandleRequest (calm [listingA, listingB, listingC]) (world_with [''A'']) =
       (Returned None,
        \<lparr>table = [dynamoPartitionKeyValue \<mapsto>
            \<lparr>PartitionKey = dynamoPartitionKeyValue, SeenIDs = [''A'', ''B'', ''C'']\<rparr>],
         sns_log = [(listingB, None), (listingC, None)]\<rparr>)
   \<and> stored_ids
        \<lparr>table = [dynamoPartitionKeyValue \<mapsto>
            \<lparr>PartitionKey = dynamoPartitionKeyValue, SeenIDs = [''A'', ''B'', ''C'']\<rparr>],
         sns_log = [(listingB, None), (listingC, None)]\<rparr> =
       stored_ids (world_with [''A'']) @ map ID (delivered [(listingB, None), (listingC, None)])"
proof -
  have direct: ?thesis
    unfolding run_ABC_after_A
    by (simp add: calm_def world_with_def stored_ids_def delivered_def
        listingA_def listingB_def listingC_def)
  from working_set_only_grows
    [where e = "calm [listingA, listingB, listingC]"
       and L = "\<lparr>Results = [listingA, listingB, listingC]\<rparr>"
       and w = "world_with [''A'']" and r' = None
       and w' = "\<lparr>table = [dynamoPartitionKeyValue \<mapsto>
            \<lparr>PartitionKey = dynamoPartitionKeyValue, SeenIDs = [''A'', ''B'', ''C'']\<rparr>],
         sns_log = [(listingB, None), (listingC, None)]\<rparr>"
       and db = "\<lparr>cache = Some \<lparr>PartitionKey = dynamoPartitionKeyValue, SeenIDs = [''A'']\<rparr>\<rparr>"
       and c = "\<lparr>PartitionKey = dynamoPartitionKeyValue, SeenIDs = [''A'']\<rparr>"
       and listing = listingB and ls = "[]"
       and n = "NewNotifier (calm [listingA, listingB, listingC])"
       and r = "Value ()"
       and ?db1.0 = "\<lparr>cache = Some \<lparr>PartitionKey = dynamoPartitionKeyValue, SeenIDs = [''A'']\<rparr>\<rparr>"
       and ?w1.0 = "world_with [''A'']"
       and ?c1.0 = "\<lparr>PartitionKey = dynamoPartitionKeyValue, SeenIDs = [''A'']\<rparr>"
       and ?db2.0 = "\<lparr>cache = Some \<lparr>PartitionKey = dynamoPartitionKeyValue, SeenIDs = [''A'']\<rparr>\<rparr>"
       and ?w2.0 = "world_with [''A'']"]
    direct
  show ?thesis by - assumption
qed

end
